theory Spec2Isabelle
  imports Main "HOL-Library.Sublist"
begin

section \<open>Errors, strings and files\<close>

text \<open>
  The Python exceptions that the modelled code can raise. A \<open>ValueError\<close> carries the
  reason it was raised for: \<open>str.split\<close> with an empty separator, the tuple
  unpacking \<open>key, value = parts\<close> on a list of the wrong length, or a pool asked
  for zero workers. \<open>ArgumentError\<close> is
  the exit of \<open>argparse\<close> on a value its \<open>type\<close> function rejects; \<open>ServiceError\<close>
  stands for whatever an external collaborator (GEOparse, pysradb) raises itself.
\<close>

datatype value_error = EmptySeparator | NotEnoughValues | TooManyValues | NoJobs

datatype error =
    FileNotFoundError
  | TypeError
  | KeyError
  | ValueError value_error
  | ArgumentError
  | ServiceError string

text \<open>
  A Python \<open>str\<close> is a \<open>string\<close>; the characters are the code points below 256.
  \<open>isspace\<close> lists the code points of that range for which \<open>str.isspace\<close> holds:
  tab to carriage return, the four separators \<open>0x1C\<close> to \<open>0x1F\<close>, the space,
  \<open>0x85\<close> and the no-break space.
\<close>

definition whitespace :: "char list" where
  "whitespace =
     [CHR 0x09, CHR 0x0A, CHR 0x0B, CHR 0x0C, CHR 0x0D,
      CHR 0x1C, CHR 0x1D, CHR 0x1E, CHR 0x1F, CHR 0x20, CHR 0x85, CHR 0xA0]"

definition isspace :: "char \<Rightarrow> bool" where
  "isspace c = (c \<in> set whitespace)"

text \<open>\<open>str.lstrip()\<close>, \<open>str.rstrip()\<close> and \<open>str.strip()\<close> without argument.\<close>

definition lstrip :: "string \<Rightarrow> string" where
  "lstrip s = dropWhile isspace s"

definition rstrip :: "string \<Rightarrow> string" where
  "rstrip s = rev (dropWhile isspace (rev s))"

definition strip :: "string \<Rightarrow> string" where
  "strip s = rstrip (lstrip s)"

text \<open>\<open>sep.join(xs)\<close>.\<close>

fun join :: "string \<Rightarrow> string list \<Rightarrow> string" where
  "join sep [] = []"
| "join sep [x] = x"
| "join sep (x # y # ys) = x @ sep @ join sep (y # ys)"

text \<open>
  A file system maps a path to the text that a text-mode \<open>read\<close> delivers (decoded,
  line ends already translated to \<open>\n\<close>); a path outside the domain cannot be
  opened. \<open>readlines\<close> cuts the text after every \<open>\n\<close> and keeps the terminator
  on each line; a last line without terminator is a line too.
\<close>

type_synonym filesystem = "string \<rightharpoonup> string"

definition open_read :: "filesystem \<Rightarrow> string \<Rightarrow> error + string" where
  "open_read fs path = (case fs path of None \<Rightarrow> Inl FileNotFoundError | Some text \<Rightarrow> Inr text)"

fun lines_from :: "string \<Rightarrow> string \<Rightarrow> string list" where
  "lines_from acc [] = (if acc = [] then [] else [rev acc])"
| "lines_from acc (c # cs) =
     (if c = CHR 0x0A then rev (c # acc) # lines_from [] cs else lines_from (c # acc) cs)"

definition readlines :: "string \<Rightarrow> string list" where
  "readlines text = lines_from [] text"

text \<open>Truth value of an optional string: \<open>None\<close> and the empty string are false.\<close>

fun truthy :: "string option \<Rightarrow> bool" where
  "truthy None = False"
| "truthy (Some s) = (s \<noteq> [])"

text \<open>
  The block shared by \<open>download_fastq\<close> and \<open>download_fastq_parallel\<close>:
  \<^verbatim>\<open>with open(file, "r") as file: ... [line.strip() for line in file.readlines()]\<close>
\<close>

definition read_sample_file :: "filesystem \<Rightarrow> string \<Rightarrow> error + string list" where
  "read_sample_file fs path =
     (case open_read fs path of
        Inl e \<Rightarrow> Inl e
      | Inr text \<Rightarrow> Inr (map strip (readlines text)))"

section \<open>Single-sample download\<close>

text \<open>
  The argument \<open>sample_ids\<close> of \<open>download_fastq\<close> is a string, a list of strings, or
  the default \<open>None\<close>.
\<close>

datatype sample_ids = IdStr string | IdList "string list" | IdNone

text \<open>Formatting inside an f-string: \<open>None\<close> prints as \<open>None\<close>.\<close>

fun format_ids :: "sample_ids \<Rightarrow> string" where
  "format_ids (IdStr s) = s"
| "format_ids (IdList xs) = join '' '' xs"
| "format_ids IdNone = ''None''"

definition out_dir_parser :: "string option \<Rightarrow> string" where
  "out_dir_parser out_dir =
     (case out_dir of
        None \<Rightarrow> []
      | Some d \<Rightarrow> if d \<noteq> [] then ''--output-directory '' @ d else [])"

definition kingfisher_command :: "string \<Rightarrow> string \<Rightarrow> string \<Rightarrow> string" where
  "kingfisher_command ids dir_flag download_methods =
     ''kingfisher get --run-identifiers '' @ ids @ '' '' @ dir_flag
       @ '' --download-methods '' @ download_methods"

text \<open>
  \<open>download_fastq\<close> returns the list of shell commands it has handed to
  \<open>subprocess.call\<close>, or the exception that left it before any call.
\<close>

definition download_fastq ::
  "filesystem \<Rightarrow> string option \<Rightarrow> sample_ids \<Rightarrow> string \<Rightarrow> string option \<Rightarrow> error + string list" where
  "download_fastq fs out_dir ids download_methods file =
     (case (if truthy file
            then (case read_sample_file fs (the file) of
                    Inl e \<Rightarrow> Inl e
                  | Inr xs \<Rightarrow> Inr (IdList xs))
            else Inr ids) of
        Inl e \<Rightarrow> Inl e
      | Inr ids' \<Rightarrow>
          Inr [kingfisher_command (format_ids ids') (out_dir_parser out_dir) download_methods])"

section \<open>Parallel dispatch\<close>

text \<open>
  One task handed to the pool: \<open>delayed(download_fastq)(out_dir, sample_id,
  download_methods)\<close>. A pool call is \<open>Parallel(n_jobs=...)(tasks)\<close>.
\<close>

record job =
  job_out_dir :: "string option"
  job_sample_id :: string
  job_download_methods :: string

record pool_call =
  n_jobs :: int
  tasks :: "job list"


text \<open>
  Lines 190 to 192 of the library: a file that is given replaces the sample list. The
  list is optional, its default being \<open>None\<close>.
\<close>

definition resolve_sample_list ::
  "filesystem \<Rightarrow> string option \<Rightarrow> string list option \<Rightarrow> error + string list option" where
  "resolve_sample_list fs file sample_list =
     (if truthy file
      then (case read_sample_file fs (the file) of
              Inl e \<Rightarrow> Inl e
            | Inr xs \<Rightarrow> Inr (Some xs))
      else Inr sample_list)"

text \<open>
  The rest of \<open>download_fastq_parallel\<close>, up to the pool call it makes: \<open>len\<close> and
  the iteration raise \<open>TypeError\<close> on \<open>None\<close>; otherwise the pool is called with
  one task for each element of the list.
\<close>

definition download_fastq_parallel ::
  "filesystem \<Rightarrow> string option \<Rightarrow> string list option \<Rightarrow> string \<Rightarrow> int \<Rightarrow> string option \<Rightarrow> bool
     \<Rightarrow> error + pool_call" where
  "download_fastq_parallel fs out_dir sample_list download_methods processes file use_max_processes =
     (case resolve_sample_list fs file sample_list of
        Inl e \<Rightarrow> Inl e
      | Inr None \<Rightarrow> Inl TypeError
      | Inr (Some xs) \<Rightarrow>
          Inr \<lparr> n_jobs = (if use_max_processes then int (length xs) else processes),
                tasks = map (\<lambda>sample_id.
                          \<lparr> job_out_dir = out_dir, job_sample_id = sample_id,
                            job_download_methods = download_methods \<rparr>) xs \<rparr>)"

text \<open>The download invocations that an outcome of the dispatch has handed to the pool.\<close>

fun dispatched :: "error + pool_call \<Rightarrow> job list" where
  "dispatched (Inl e) = []"
| "dispatched (Inr pc) = tasks pc"

text \<open>
  The pool of joblib, \<open>Parallel(n_jobs=n)(tasks)\<close>: a worker count of zero is refused
  with \<open>ValueError\<close> when the pool is set up, before any task runs; with every other
  count (a negative one counts down from the number of processors) each task is run
  once. The result lists the calls of \<open>download_fastq\<close> that were made, in the order
  of the tasks; the order in which they are carried out is not determined.
\<close>

definition Parallel :: "pool_call \<Rightarrow> error + job list" where
  "Parallel pc = (if n_jobs pc = 0 then Inl (ValueError NoJobs) else Inr (tasks pc))"

text \<open>
  The whole of \<open>download_fastq_parallel\<close>: the pool call is built, then made. The
  outcome is the list of the calls of \<open>download_fastq\<close>, or the exception.
\<close>

definition download_fastq_parallel_run ::
  "filesystem \<Rightarrow> string option \<Rightarrow> string list option \<Rightarrow> string \<Rightarrow> int \<Rightarrow> string option \<Rightarrow> bool
     \<Rightarrow> error + job list" where
  "download_fastq_parallel_run fs out_dir sample_list download_methods processes file
       use_max_processes =
     (case download_fastq_parallel fs out_dir sample_list download_methods processes file
             use_max_processes of
        Inl e \<Rightarrow> Inl e
      | Inr pc \<Rightarrow> Parallel pc)"

section \<open>Identifier translation\<close>

text \<open>
  The table that \<open>SRAweb().sra_metadata\<close> returns is a pandas data frame: the index,
  which gives every row its label (an integer here), and the columns, every column
  holding one cell per row. \<open>df.at[0, column]\<close> looks up the row whose label is \<open>0\<close>,
  wherever that row stands, and raises \<open>KeyError\<close> for an unknown column label and
  for an unknown row label. (For a label that occurs twice pandas answers with all its
  rows instead of a scalar; the labels of a service table are distinct, which
  \<open>wf_frame\<close> records, and the statements about the value returned assume it.)
\<close>

record dataframe =
  df_index :: "int list"
  df_columns :: "(string \<times> string list) list"

fun position :: "int \<Rightarrow> int list \<Rightarrow> nat option" where
  "position label [] = None"
| "position label (x # xs) = (if x = label then Some 0 else map_option Suc (position label xs))"

definition at0 :: "dataframe \<Rightarrow> string \<Rightarrow> error + string" where
  "at0 df column =
     (case map_of (df_columns df) column of
        None \<Rightarrow> Inl KeyError
      | Some cells \<Rightarrow>
          (case position 0 (df_index df) of
             None \<Rightarrow> Inl KeyError
           | Some i \<Rightarrow> if i < length cells then Inr (cells ! i) else Inl KeyError))"

text \<open>
  Rows of a frame: their number, whether the labels are distinct and every column has
  one cell per row, the row at a position as the list of its fields, the first row, and
  whether the index is the default one, \<open>0, 1, ...\<close>.
\<close>

definition nrows :: "dataframe \<Rightarrow> nat" where
  "nrows df = length (df_index df)"

definition wf_frame :: "dataframe \<Rightarrow> bool" where
  "wf_frame df =
     (distinct (df_index df)
      \<and> list_all (\<lambda>(column, cells). length cells = nrows df) (df_columns df))"

definition row_at :: "dataframe \<Rightarrow> nat \<Rightarrow> (string \<times> string) list" where
  "row_at df i = map (\<lambda>(column, cells). (column, cells ! i)) (df_columns df)"

definition first_row :: "dataframe \<Rightarrow> (string \<times> string) list" where
  "first_row df = row_at df 0"

definition default_index :: "dataframe \<Rightarrow> bool" where
  "default_index df = (df_index df = map int [0 ..< nrows df])"

text \<open>The metadata service is a parameter: it answers with a table or raises.\<close>

type_synonym sra_service = "string \<Rightarrow> error + dataframe"

definition gsm_to_srr :: "sra_service \<Rightarrow> string \<Rightarrow> error + string" where
  "gsm_to_srr sra_metadata gsm =
     (case sra_metadata gsm of
        Inl e \<Rightarrow> Inl e
      | Inr sample_metadata \<Rightarrow> at0 sample_metadata ''run_accession'')"

definition gsm_to_srp :: "sra_service \<Rightarrow> string \<Rightarrow> error + string" where
  "gsm_to_srp sra_metadata gsm =
     (case sra_metadata gsm of
        Inl e \<Rightarrow> Inl e
      | Inr sample_metadata \<Rightarrow> at0 sample_metadata ''study_accession'')"

section \<open>Dataset expansion\<close>

text \<open>
  The dataset handle of GEOparse: \<open>gsms\<close> and \<open>gpls\<close> are dictionaries in insertion
  order, from a name to a metadata object.
\<close>

record geo_entry =
  metadata :: "(string \<times> string list) list"
  table :: dataframe

record gse =
  gsms :: "(string \<times> geo_entry) list"
  gpls :: "(string \<times> geo_entry) list"

type_synonym geo_service = "string \<Rightarrow> error + gse"

definition get_GEO_info :: "geo_service \<Rightarrow> string \<Rightarrow> error + gse" where
  "get_GEO_info get_GEO GEO_id = get_GEO GEO_id"

text \<open>
  A list comprehension \<open>[f(x) for x in xs]\<close> whose \<open>f\<close> may raise: the elements are
  visited from left to right and the first exception ends the comprehension. The first
  component records the elements \<open>f\<close> has been called on.
\<close>

fun comprehension :: "('a \<Rightarrow> error + 'b) \<Rightarrow> 'a list \<Rightarrow> 'a list \<times> (error + 'b list)" where
  "comprehension f [] = ([], Inr [])"
| "comprehension f (x # xs) =
     (case f x of
        Inl e \<Rightarrow> ([x], Inl e)
      | Inr y \<Rightarrow>
          (case comprehension f xs of
             (calls, Inl e) \<Rightarrow> (x # calls, Inl e)
           | (calls, Inr ys) \<Rightarrow> (x # calls, Inr (y # ys))))"

text \<open>
  \<open>download_GEO_dataset\<close> returns the sample keys it has asked the translation for,
  and the outcome of the dispatch (or the exception raised before it).
\<close>

definition download_GEO_dataset ::
  "geo_service \<Rightarrow> sra_service \<Rightarrow> filesystem \<Rightarrow> string \<Rightarrow> string option \<Rightarrow> string \<Rightarrow> int \<Rightarrow> bool
     \<Rightarrow> string list \<times> (error + pool_call)" where
  "download_GEO_dataset get_GEO sra_metadata fs GEO_id out_dir download_methods processes
       use_max_processes =
     (case get_GEO_info get_GEO GEO_id of
        Inl e \<Rightarrow> ([], Inl e)
      | Inr g \<Rightarrow>
          (case comprehension (gsm_to_srr sra_metadata) (map fst (gsms g)) of
             (calls, Inl e) \<Rightarrow> (calls, Inl e)
           | (calls, Inr ids) \<Rightarrow>
               (calls,
                download_fastq_parallel fs out_dir (Some ids) download_methods
                  (if use_max_processes then int (length ids) else processes) None False)))"

section \<open>Key-value strings\<close>

text \<open>
  \<open>s.split(sep)\<close> for a non-empty separator: the occurrences of \<open>sep\<close> are found
  from the left and do not overlap. An empty separator raises \<open>ValueError\<close>.
\<close>

fun split_from :: "string \<Rightarrow> string \<Rightarrow> string \<Rightarrow> string list" where
  "split_from sep acc [] = [rev acc]"
| "split_from sep acc (c # cs) =
     (if sep \<noteq> [] \<and> prefix sep (c # cs)
      then rev acc # split_from sep [] (drop (length sep - 1) cs)
      else split_from sep (c # acc) cs)"

definition split :: "string \<Rightarrow> string \<Rightarrow> error + string list" where
  "split sep s = (if sep = [] then Inl (ValueError EmptySeparator) else Inr (split_from sep [] s))"

text \<open>The unpacking \<open>key, value = parts\<close>.\<close>

fun unpack2 :: "string list \<Rightarrow> error + string \<times> string" where
  "unpack2 [key, val] = Inr (key, val)"
| "unpack2 [] = Inl (ValueError NotEnoughValues)"
| "unpack2 [x] = Inl (ValueError NotEnoughValues)"
| "unpack2 (x # y # z # zs) = Inl (ValueError TooManyValues)"

text \<open>A comprehension, without the record of calls.\<close>

definition collect :: "('a \<Rightarrow> error + 'b) \<Rightarrow> 'a list \<Rightarrow> error + 'b list" where
  "collect f xs = snd (comprehension f xs)"

text \<open>
  \<open>list_to_dict\<close>: the inner comprehension splits every string first, then the
  dictionary comprehension unpacks each result and stores the pair, a later pair
  replacing an earlier one with the same key.
\<close>

definition list_to_dict :: "string list \<Rightarrow> string \<Rightarrow> error + (string \<rightharpoonup> string)" where
  "list_to_dict list sep =
     (case collect (split sep) list of
        Inl e \<Rightarrow> Inl e
      | Inr parts \<Rightarrow>
          (case collect unpack2 parts of
             Inl e \<Rightarrow> Inl e
           | Inr pairs \<Rightarrow> Inr (fold (\<lambda>(key, val) d. d(key \<mapsto> val)) pairs Map.empty)))"

section \<open>Command line\<close>

text \<open>
  What \<open>argparse\<close> has found on the command line: for each option the string given
  to it, or \<open>None\<close> when the option is absent. \<open>type=bool\<close> applies \<open>bool\<close> to that
  string, which is true for every string but the empty one; \<open>type=int\<close> applies
  \<open>int\<close>, a parameter here, and a string it rejects ends the program. The defaults
  are not strings and are taken as they are.
\<close>

record command_line =
  opt_input_file :: "string option"
  opt_output_dir :: "string option"
  opt_download_methods :: "string option"
  opt_processes :: "string option"
  opt_use_max_processes :: "string option"

record args =
  input_file :: "string option"
  output_dir :: "string option"
  download_methods :: string
  processes :: int
  use_max_processes :: bool

definition bool_of_str :: "string \<Rightarrow> bool" where
  "bool_of_str s = (length s \<noteq> 0)"

definition parse_args :: "(string \<Rightarrow> int option) \<Rightarrow> command_line \<Rightarrow> error + args" where
  "parse_args int_of_str cl =
     (case (case opt_processes cl of
              None \<Rightarrow> Inr 10
            | Some s \<Rightarrow> (case int_of_str s of None \<Rightarrow> Inl ArgumentError | Some n \<Rightarrow> Inr n)) of
        Inl e \<Rightarrow> Inl e
      | Inr p \<Rightarrow>
          Inr \<lparr> input_file = opt_input_file cl,
                output_dir = opt_output_dir cl,
                download_methods =
                  (case opt_download_methods cl of
                     None \<Rightarrow> ''ena-ascp ena-ftp aws-http prefetch''
                   | Some s \<Rightarrow> s),
                processes = p,
                use_max_processes =
                  (case opt_use_max_processes cl of None \<Rightarrow> False | Some s \<Rightarrow> bool_of_str s) \<rparr>)"

text \<open>The script: parse the command line, then dispatch.\<close>

definition main :: "(string \<Rightarrow> int option) \<Rightarrow> filesystem \<Rightarrow> command_line \<Rightarrow> error + job list" where
  "main int_of_str fs cl =
     (case parse_args int_of_str cl of
        Inl e \<Rightarrow> Inl e
      | Inr a \<Rightarrow>
          download_fastq_parallel_run fs (output_dir a) None (download_methods a) (processes a)
            (input_file a) (use_max_processes a))"

section \<open>Example inputs\<close>

text \<open>
  Concrete inputs on which the statements below are evaluated: a file system with one
  file of sample identifiers, collaborators that answer for a dataset of three
  samples, the second of which has no run in the archive, and a metadata service whose
  table lists the row labelled \<open>1\<close> before the row labelled \<open>0\<close>.
\<close>

definition no_files :: filesystem where
  "no_files = Map.empty"

definition indented_text :: string where
  "indented_text = '' SRR001'' @ [CHR 0x0A]"

definition indented_files :: filesystem where
  "indented_files = [''ids.txt'' \<mapsto> indented_text]"

definition two_line_text :: string where
  "two_line_text = ''SRR001'' @ [CHR 0x0A] @ [CHR 0x0A] @ ''SRR002''"

definition two_line_files :: filesystem where
  "two_line_files = [''ids.txt'' \<mapsto> two_line_text]"

definition empty_entry :: geo_entry where
  "empty_entry = \<lparr> metadata = [], table = \<lparr> df_index = [], df_columns = [] \<rparr> \<rparr>"

definition three_samples :: gse where
  "three_samples =
     \<lparr> gsms = [(''GSM1'', empty_entry), (''GSM2'', empty_entry), (''GSM3'', empty_entry)],
       gpls = [] \<rparr>"

definition geo_three_samples :: geo_service where
  "geo_three_samples GEO_id =
     (if GEO_id = ''GSE1'' then Inr three_samples else Inl (ServiceError ''no such series''))"

definition sra_all_runs :: sra_service where
  "sra_all_runs gsm =
     Inr \<lparr> df_index = [0],
           df_columns = [(''run_accession'', [''SRR'' @ drop 3 gsm]),
                         (''study_accession'', [''SRP1''])] \<rparr>"

definition no_rows :: dataframe where
  "no_rows = \<lparr> df_index = [], df_columns = [(''run_accession'', []), (''study_accession'', [])] \<rparr>"

definition sra_second_missing :: sra_service where
  "sra_second_missing gsm =
     (if gsm = ''GSM2'' then Inr no_rows else sra_all_runs gsm)"

definition reordered_frame :: dataframe where
  "reordered_frame =
     \<lparr> df_index = [1, 0],
       df_columns = [(''run_accession'', [''SRR900001'', ''SRR900000'']),
                     (''study_accession'', [''SRP2'', ''SRP1''])] \<rparr>"

definition sra_reordered :: sra_service where
  "sra_reordered gsm = Inr reordered_frame"

definition no_int :: "string \<Rightarrow> int option" where
  "no_int s = None"

definition empty_flag_line :: command_line where
  "empty_flag_line =
     \<lparr> opt_input_file = Some ''ids.txt'', opt_output_dir = None, opt_download_methods = None,
       opt_processes = None, opt_use_max_processes = Some [] \<rparr>"

definition false_flag_line :: command_line where
  "false_flag_line =
     \<lparr> opt_input_file = Some ''ids.txt'', opt_output_dir = None, opt_download_methods = None,
       opt_processes = None, opt_use_max_processes = Some ''False'' \<rparr>"

section \<open>Parallel dispatch: one call per identifier\<close>




section \<open>Parallel dispatch: the worker count\<close>

text \<open>
  C3. For a batch of \<open>N\<close> identifiers and a requested worker count \<open>P\<close>, the pool is
  called with \<open>n_jobs = N\<close> when the use-max flag is set, whatever \<open>P\<close> is, and with
  \<open>n_jobs = P\<close> when it is not set, also when \<open>P\<close> exceeds \<open>N\<close>.
\<close>

theorem worker_count:
  assumes "resolve_sample_list fs file sample_list = Inr (Some batch)"
  shows "\<exists>pc. download_fastq_parallel fs out_dir sample_list methods procs file use_max = Inr pc
           \<and> n_jobs pc = (if use_max then int (length batch) else procs)"
  using assms by (simp add: download_fastq_parallel_def)

theorem worker_count_witness:
  "resolve_sample_list no_files None (Some [''SRR1'', ''SRR2'']) = Inr (Some [''SRR1'', ''SRR2''])
   \<and> map_sum id n_jobs
        (download_fastq_parallel no_files None (Some [''SRR1'', ''SRR2'']) ''ena-ftp'' 10 None True)
       = Inr 2
   \<and> map_sum id n_jobs
        (download_fastq_parallel no_files None (Some [''SRR1'', ''SRR2'']) ''ena-ftp'' 10 None False)
       = Inr 10"
proof -
  have h: "resolve_sample_list no_files None (Some [''SRR1'', ''SRR2''])
             = Inr (Some [''SRR1'', ''SRR2''])"
    by (simp add: resolve_sample_list_def)
  show ?thesis
    using h worker_count [OF h, of None "''ena-ftp''" 10 True]
      worker_count [OF h, of None "''ena-ftp''" 10 False]
    by auto
qed

section \<open>File-based resolution overrides the sample list\<close>

text \<open>
  C4. When a file path (a non-empty string) and a sample list are both given, the
  outcome of \<open>download_fastq_parallel\<close> is the same for every sample list, present
  or not, and when the file can be read the dispatched identifiers are the stripped
  lines of the file.
\<close>

theorem file_overrides_sample_list:
  assumes "path \<noteq> []"
  shows "download_fastq_parallel fs out_dir (Some xs) methods procs (Some path) use_max
           = download_fastq_parallel fs out_dir other methods procs (Some path) use_max
       \<and> (\<forall>text. fs path = Some text \<longrightarrow>
             map job_sample_id
               (dispatched
                  (download_fastq_parallel fs out_dir (Some xs) methods procs (Some path) use_max))
               = map strip (readlines text))"
  using assms
  by (simp add: download_fastq_parallel_def resolve_sample_list_def read_sample_file_def
        open_read_def comp_def)

theorem file_overrides_sample_list_witness:
  "''ids.txt'' \<noteq> []
   \<and> two_line_files ''ids.txt'' = Some two_line_text
   \<and> map job_sample_id
        (dispatched
           (download_fastq_parallel two_line_files None (Some [''SRR9'']) ''ena-ftp'' 10
              (Some ''ids.txt'') False))
       = [''SRR001'', [], ''SRR002'']
   \<and> download_fastq_parallel two_line_files None (Some [''SRR9'']) ''ena-ftp'' 10
        (Some ''ids.txt'') False
       = download_fastq_parallel two_line_files None None ''ena-ftp'' 10 (Some ''ids.txt'') False"
proof -
  have p: "''ids.txt'' \<noteq> []" by simp
  have f: "two_line_files ''ids.txt'' = Some two_line_text"
    by (simp add: two_line_files_def)
  have l: "map strip (readlines two_line_text) = [''SRR001'', [], ''SRR002'']"
    by code_simp
  show ?thesis
    using p f l
      file_overrides_sample_list [OF p, of two_line_files None "[''SRR9'']" "''ena-ftp''" 10
        False None]
    by auto
qed

section \<open>The command of a single-sample download\<close>

text \<open>
  C6. Called on one sample identifier, without a file, \<open>download_fastq\<close> hands
  exactly one command to the shell: the fixed words of the tool, in which the identifier
  and the method list stand verbatim (the identifier inside the command, the method list
  at its end). When a directory (a non-empty string) is given, the output-directory flag
  with that directory stands between them; when none is given, nothing stands between
  them but the blanks of the template.
\<close>

theorem single_download_command:
  "\<exists>cmd. download_fastq fs out_dir (IdStr sample_id) methods None = Inr [cmd]
     \<and> cmd = ''kingfisher get --run-identifiers '' @ sample_id @ '' ''
              @ (if truthy out_dir then ''--output-directory '' @ the out_dir else [])
              @ '' --download-methods '' @ methods
     \<and> sublist sample_id cmd
     \<and> suffix methods cmd
     \<and> (if truthy out_dir
         then sublist ('' --output-directory '' @ the out_dir @ '' --download-methods '') cmd
         else cmd = ''kingfisher get --run-identifiers '' @ sample_id
                      @ ''  --download-methods '' @ methods)"
proof -
  let ?flag = "if truthy out_dir then ''--output-directory '' @ the out_dir else []"
  let ?cmd = "''kingfisher get --run-identifiers '' @ sample_id @ '' '' @ ?flag
                @ '' --download-methods '' @ methods"
  have p: "out_dir_parser out_dir = ?flag"
    by (cases out_dir) (simp_all add: out_dir_parser_def)
  have r: "download_fastq fs out_dir (IdStr sample_id) methods None = Inr [?cmd]"
    unfolding download_fastq_def kingfisher_command_def p by simp
  have a: "sublist sample_id ?cmd"
    by (rule sublist_appendI)
  have b: "suffix methods ?cmd"
    unfolding suffix_def by (intro exI [of _ "''kingfisher get --run-identifiers '' @ sample_id @ '' '' @ ?flag @ '' --download-methods ''"]) simp
  have c: "if truthy out_dir
         then sublist ('' --output-directory '' @ the out_dir @ '' --download-methods '') ?cmd
         else ?cmd = ''kingfisher get --run-identifiers '' @ sample_id
                      @ ''  --download-methods '' @ methods"
  proof (cases "truthy out_dir")
    case True
    have "?cmd = (''kingfisher get --run-identifiers '' @ sample_id)
                   @ ('' --output-directory '' @ the out_dir @ '' --download-methods '') @ methods"
      using True by simp
    then have "sublist ('' --output-directory '' @ the out_dir @ '' --download-methods '') ?cmd"
      by (metis sublist_appendI)
    with True show ?thesis by simp
  next
    case False
    then show ?thesis by simp
  qed
  from r a b c show ?thesis by blast
qed

theorem single_download_command_witness:
  "download_fastq no_files (Some ''out'') (IdStr ''SRR1'') ''ena-ftp aws-http'' None
     = Inr [''kingfisher get --run-identifiers SRR1 --output-directory out --download-methods ena-ftp aws-http'']
   \<and> download_fastq no_files None (IdStr ''SRR1'') ''ena-ftp aws-http'' None
     = Inr [''kingfisher get --run-identifiers SRR1  --download-methods ena-ftp aws-http'']"
proof -
  from single_download_command [of no_files "Some ''out''" "''SRR1''" "''ena-ftp aws-http''"]
  obtain c1 where
    "download_fastq no_files (Some ''out'') (IdStr ''SRR1'') ''ena-ftp aws-http'' None = Inr [c1]"
    and "c1 = ''kingfisher get --run-identifiers '' @ ''SRR1'' @ '' ''
              @ (if truthy (Some ''out'') then ''--output-directory '' @ the (Some ''out'') else [])
              @ '' --download-methods '' @ ''ena-ftp aws-http''"
    by (elim exE conjE)
  then have a: "download_fastq no_files (Some ''out'') (IdStr ''SRR1'') ''ena-ftp aws-http'' None
     = Inr [''kingfisher get --run-identifiers SRR1 --output-directory out --download-methods ena-ftp aws-http'']"
    by simp
  from single_download_command [of no_files None "''SRR1''" "''ena-ftp aws-http''"]
  obtain c2 where
    "download_fastq no_files None (IdStr ''SRR1'') ''ena-ftp aws-http'' None = Inr [c2]"
    and "c2 = ''kingfisher get --run-identifiers '' @ ''SRR1'' @ '' ''
              @ (if truthy None then ''--output-directory '' @ the None else [])
              @ '' --download-methods '' @ ''ena-ftp aws-http''"
    by (elim exE conjE)
  then have b: "download_fastq no_files None (IdStr ''SRR1'') ''ena-ftp aws-http'' None
     = Inr [''kingfisher get --run-identifiers SRR1  --download-methods ena-ftp aws-http'']"
    by simp
  from a b show ?thesis ..
qed

section \<open>Identifier translation reads the row labelled 0\<close>

lemma position_None_iff: "position label xs = None \<longleftrightarrow> label \<notin> set xs"
  by (induction xs) auto

lemma position_distinct:
  assumes "distinct xs" and "i < length xs" and "xs ! i = label"
  shows "position label xs = Some i"
  using assms
proof (induction xs arbitrary: i)
  case Nil
  then show ?case by simp
next
  case (Cons x xs)
  show ?case
  proof (cases i)
    case 0
    with Cons.prems show ?thesis by simp
  next
    case (Suc j)
    with Cons.prems have j: "j < length xs" "xs ! j = label" by simp_all
    then have "label \<in> set xs" by auto
    with Cons.prems(1) have "x \<noteq> label" by auto
    moreover from Cons.IH [of j] Cons.prems(1) j have "position label xs = Some j" by simp
    ultimately show ?thesis using Suc by simp
  qed
qed

lemma map_of_row_at:
  "map_of (map (\<lambda>(column, cells). (column, cells ! i)) cols) column
     = map_option (\<lambda>cells. cells ! i) (map_of cols column)"
  by (induction cols) auto

lemma at0_row_labelled_0:
  assumes "wf_frame df" and "i < nrows df" and "df_index df ! i = 0"
    and "column \<in> set (map fst (df_columns df))"
  shows "\<exists>cell. at0 df column = Inr cell \<and> map_of (row_at df i) column = Some cell"
proof -
  from assms(4) obtain cells where c: "map_of (df_columns df) column = Some cells"
    by (metis map_of_eq_None_iff not_Some_eq set_map)
  then have "(column, cells) \<in> set (df_columns df)" by (rule map_of_SomeD)
  with assms(1) have len: "length cells = nrows df"
    by (auto simp: wf_frame_def list_all_iff)
  from assms(1) have "distinct (df_index df)" by (simp add: wf_frame_def)
  with assms(2,3) have p: "position 0 (df_index df) = Some i"
    by (simp add: position_distinct nrows_def)
  from c p len assms(2) have "at0 df column = Inr (cells ! i)"
    by (simp add: at0_def)
  moreover from c have "map_of (row_at df i) column = Some (cells ! i)"
    by (simp add: row_at_def map_of_row_at)
  ultimately show ?thesis by simp
qed

lemma at0_KeyError:
  assumes "nrows df = 0 \<or> 0 \<notin> set (df_index df) \<or> column \<notin> set (map fst (df_columns df))"
  shows "at0 df column = Inl KeyError"
proof (cases "map_of (df_columns df) column")
  case None
  then show ?thesis by (simp add: at0_def)
next
  case (Some cells)
  then have "(column, cells) \<in> set (df_columns df)" by (rule map_of_SomeD)
  then have "column \<in> set (map fst (df_columns df))" by force
  with assms have "0 \<notin> set (df_index df)" by (auto simp: nrows_def)
  then have "position 0 (df_index df) = None" by (simp add: position_None_iff)
  with Some show ?thesis by (simp add: at0_def)
qed

lemma default_index_first:
  assumes "default_index df" and "0 < nrows df"
  shows "df_index df ! 0 = 0"
proof -
  from assms(1) have "df_index df ! 0 = map int [0 ..< nrows df] ! 0"
    by (simp add: default_index_def)
  also from assms(2) have "\<dots> = 0" by simp
  finally show ?thesis .
qed

text \<open>
  C7, as the code has it. When the metadata service answers with a table,
  \<open>gsm_to_srr\<close> returns the \<open>run_accession\<close> field, and \<open>gsm_to_srp\<close> the
  \<open>study_accession\<close> field, of the row labelled \<open>0\<close>, at whatever position that row
  stands; this is the first row when the table carries the default index. When the
  table has no rows, has no row labelled \<open>0\<close>, or lacks the column, the lookup raises
  \<open>KeyError\<close>, the plain exception of the table library, which nothing catches.
\<close>

theorem translation_row_labelled_0:
  assumes "sra_metadata gsm = Inr df" and "wf_frame df"
  shows "(\<forall>i. i < nrows df \<and> df_index df ! i = 0
              \<and> ''run_accession'' \<in> set (map fst (df_columns df)) \<longrightarrow>
            (\<exists>cell. gsm_to_srr sra_metadata gsm = Inr cell
                   \<and> map_of (row_at df i) ''run_accession'' = Some cell))
       \<and> (nrows df = 0 \<or> 0 \<notin> set (df_index df)
            \<or> ''run_accession'' \<notin> set (map fst (df_columns df)) \<longrightarrow>
            gsm_to_srr sra_metadata gsm = Inl KeyError)
       \<and> (default_index df \<and> 0 < nrows df
            \<and> ''run_accession'' \<in> set (map fst (df_columns df)) \<longrightarrow>
            (\<exists>cell. gsm_to_srr sra_metadata gsm = Inr cell
                   \<and> map_of (first_row df) ''run_accession'' = Some cell))
       \<and> (\<forall>i. i < nrows df \<and> df_index df ! i = 0
              \<and> ''study_accession'' \<in> set (map fst (df_columns df)) \<longrightarrow>
            (\<exists>cell. gsm_to_srp sra_metadata gsm = Inr cell
                   \<and> map_of (row_at df i) ''study_accession'' = Some cell))
       \<and> (nrows df = 0 \<or> 0 \<notin> set (df_index df)
            \<or> ''study_accession'' \<notin> set (map fst (df_columns df)) \<longrightarrow>
            gsm_to_srp sra_metadata gsm = Inl KeyError)
       \<and> (default_index df \<and> 0 < nrows df
            \<and> ''study_accession'' \<in> set (map fst (df_columns df)) \<longrightarrow>
            (\<exists>cell. gsm_to_srp sra_metadata gsm = Inr cell
                   \<and> map_of (first_row df) ''study_accession'' = Some cell))"
proof -
  have srr: "gsm_to_srr sra_metadata gsm = at0 df ''run_accession''"
    using assms(1) by (simp add: gsm_to_srr_def)
  have srp: "gsm_to_srp sra_metadata gsm = at0 df ''study_accession''"
    using assms(1) by (simp add: gsm_to_srp_def)
  have labelled: "\<exists>cell. at0 df column = Inr cell \<and> map_of (row_at df i) column = Some cell"
    if "i < nrows df" "df_index df ! i = 0" "column \<in> set (map fst (df_columns df))"
    for i column
    using assms(2) that by (rule at0_row_labelled_0)
  have first: "\<exists>cell. at0 df column = Inr cell \<and> map_of (first_row df) column = Some cell"
    if "default_index df" "0 < nrows df" "column \<in> set (map fst (df_columns df))"
    for column
    unfolding first_row_def
    using assms(2) that(2) default_index_first [OF that(1,2)] that(3)
    by (rule at0_row_labelled_0)
  have raised: "at0 df column = Inl KeyError"
    if "nrows df = 0 \<or> 0 \<notin> set (df_index df) \<or> column \<notin> set (map fst (df_columns df))"
    for column
    using that by (rule at0_KeyError)
  show ?thesis
    unfolding srr srp
  proof (intro conjI allI impI)
    fix i
    assume "i < nrows df \<and> df_index df ! i = 0
              \<and> ''run_accession'' \<in> set (map fst (df_columns df))"
    then show "\<exists>cell. at0 df ''run_accession'' = Inr cell
                 \<and> map_of (row_at df i) ''run_accession'' = Some cell"
      by (intro labelled) simp_all
  next
    assume "nrows df = 0 \<or> 0 \<notin> set (df_index df)
            \<or> ''run_accession'' \<notin> set (map fst (df_columns df))"
    then show "at0 df ''run_accession'' = Inl KeyError" by (rule raised)
  next
    assume "default_index df \<and> 0 < nrows df
            \<and> ''run_accession'' \<in> set (map fst (df_columns df))"
    then show "\<exists>cell. at0 df ''run_accession'' = Inr cell
                 \<and> map_of (first_row df) ''run_accession'' = Some cell"
      by (intro first) simp_all
  next
    fix i
    assume "i < nrows df \<and> df_index df ! i = 0
              \<and> ''study_accession'' \<in> set (map fst (df_columns df))"
    then show "\<exists>cell. at0 df ''study_accession'' = Inr cell
                 \<and> map_of (row_at df i) ''study_accession'' = Some cell"
      by (intro labelled) simp_all
  next
    assume "nrows df = 0 \<or> 0 \<notin> set (df_index df)
            \<or> ''study_accession'' \<notin> set (map fst (df_columns df))"
    then show "at0 df ''study_accession'' = Inl KeyError" by (rule raised)
  next
    assume "default_index df \<and> 0 < nrows df
            \<and> ''study_accession'' \<in> set (map fst (df_columns df))"
    then show "\<exists>cell. at0 df ''study_accession'' = Inr cell
                 \<and> map_of (first_row df) ''study_accession'' = Some cell"
      by (intro first) simp_all
  qed
qed

theorem translation_row_labelled_0_witness:
  "sra_reordered ''GSM1'' = Inr reordered_frame
   \<and> wf_frame reordered_frame
   \<and> df_index reordered_frame ! 1 = 0
   \<and> gsm_to_srr sra_reordered ''GSM1'' = Inr ''SRR900000''
   \<and> gsm_to_srp sra_reordered ''GSM1'' = Inr ''SRP1''
   \<and> sra_second_missing ''GSM2'' = Inr no_rows
   \<and> wf_frame no_rows
   \<and> nrows no_rows = 0
   \<and> gsm_to_srr sra_second_missing ''GSM2'' = Inl KeyError
   \<and> gsm_to_srp sra_second_missing ''GSM2'' = Inl KeyError"
proof -
  have a: "sra_reordered ''GSM1'' = Inr reordered_frame"
    by (simp add: sra_reordered_def)
  have wa: "wf_frame reordered_frame"
    by (simp add: wf_frame_def reordered_frame_def nrows_def)
  have ia: "df_index reordered_frame ! 1 = 0"
    by (simp add: reordered_frame_def)
  have ra: "map_of (row_at reordered_frame 1) ''run_accession'' = Some ''SRR900000''"
    "map_of (row_at reordered_frame 1) ''study_accession'' = Some ''SRP1''"
    by (simp_all add: row_at_def reordered_frame_def)
  have ca: "1 < nrows reordered_frame"
    "''run_accession'' \<in> set (map fst (df_columns reordered_frame))"
    "''study_accession'' \<in> set (map fst (df_columns reordered_frame))"
    by (simp_all add: nrows_def reordered_frame_def)
  have b: "sra_second_missing ''GSM2'' = Inr no_rows"
    by (simp add: sra_second_missing_def)
  have wb: "wf_frame no_rows"
    by (simp add: wf_frame_def no_rows_def nrows_def)
  have nb: "nrows no_rows = 0"
    by (simp add: no_rows_def nrows_def)
  note ta = translation_row_labelled_0 [of sra_reordered "''GSM1''" reordered_frame, OF a wa]
  note tb = translation_row_labelled_0 [of sra_second_missing "''GSM2''" no_rows, OF b wb]
  from ta ia ca ra have srr: "gsm_to_srr sra_reordered ''GSM1'' = Inr ''SRR900000''"
    by auto
  from ta ia ca ra have srp: "gsm_to_srp sra_reordered ''GSM1'' = Inr ''SRP1''"
    by auto
  from tb nb have e1: "gsm_to_srr sra_second_missing ''GSM2'' = Inl KeyError"
    by simp
  from tb nb have e2: "gsm_to_srp sra_second_missing ''GSM2'' = Inl KeyError"
    by simp
  from a wa ia srr srp b wb nb e1 e2 show ?thesis by simp
qed

text \<open>
  C7 as stated fails on a table whose index is not the default one: the service below
  answers with two rows, labelled \<open>1\<close> and \<open>0\<close> in this order; the first row holds
  \<open>SRR900001\<close> and \<open>SRP2\<close>, and the translations return \<open>SRR900000\<close> and
  \<open>SRP1\<close>, the fields of the second row.
\<close>

theorem translation_first_row_counterexample:
  "sra_reordered ''GSM1'' = Inr reordered_frame
   \<and> df_index reordered_frame = [1, 0]
   \<and> map_of (first_row reordered_frame) ''run_accession'' = Some ''SRR900001''
   \<and> gsm_to_srr sra_reordered ''GSM1'' = Inr ''SRR900000''
   \<and> map_of (first_row reordered_frame) ''study_accession'' = Some ''SRP2''
   \<and> gsm_to_srp sra_reordered ''GSM1'' = Inr ''SRP1''"
  by (simp add: sra_reordered_def reordered_frame_def first_row_def row_at_def gsm_to_srr_def
        gsm_to_srp_def at0_def)

section \<open>Comprehensions that raise\<close>

lemma comprehension_all_ok:
  assumes "\<forall>x \<in> set xs. \<exists>y. f x = Inr y"
  shows "\<exists>ys. comprehension f xs = (xs, Inr ys) \<and> map f xs = map Inr ys"
  using assms
proof (induction xs)
  case Nil
  then show ?case by simp
next
  case (Cons x xs)
  then obtain y where y: "f x = Inr y" by auto
  from Cons obtain ys where "comprehension f xs = (xs, Inr ys)" "map f xs = map Inr ys"
    by auto
  with y show ?case by simp
qed

lemma comprehension_first_failure:
  assumes "\<forall>x \<in> set xs. \<exists>y. f x = Inr y" and "f x = Inl e"
  shows "comprehension f (xs @ x # rest) = (xs @ [x], Inl e)"
  using assms
proof (induction xs)
  case Nil
  then show ?case by simp
next
  case (Cons a xs)
  then obtain y where "f a = Inr y" by auto
  with Cons show ?case by simp
qed

lemma comprehension_calls_prefix: "prefix (fst (comprehension f xs)) xs"
  by (induction xs) (auto split: sum.splits prod.splits)

section \<open>Resolution failures abort before dispatch\<close>

text \<open>
  C8. When the file of identifiers cannot be opened, \<open>download_fastq_parallel\<close> ends
  with that error and nothing is dispatched. When the metadata lookup raises,
  \<open>download_GEO_dataset\<close> ends with that error, before any translation; when the
  translation of a sample key raises, after the keys before it have translated,
  \<open>download_GEO_dataset\<close> ends with that error, the later keys are not translated,
  and nothing is dispatched.
\<close>

theorem resolution_failure_aborts:
  "(truthy file \<and> fs (the file) = None \<longrightarrow>
      download_fastq_parallel fs out_dir sample_list methods procs file use_max
        = Inl FileNotFoundError
      \<and> dispatched (download_fastq_parallel fs out_dir sample_list methods procs file use_max)
          = [])
   \<and> (get_GEO GEO_id = Inl e \<longrightarrow>
        download_GEO_dataset get_GEO sra fs GEO_id out_dir methods procs use_max = ([], Inl e))
   \<and> (get_GEO GEO_id = Inr g \<and> map fst (gsms g) = ks @ k # rest
        \<and> (\<forall>k' \<in> set ks. \<exists>srr. gsm_to_srr sra k' = Inr srr) \<and> gsm_to_srr sra k = Inl e \<longrightarrow>
        download_GEO_dataset get_GEO sra fs GEO_id out_dir methods procs use_max
          = (ks @ [k], Inl e)
        \<and> dispatched
            (snd (download_GEO_dataset get_GEO sra fs GEO_id out_dir methods procs use_max)) = [])"
proof (intro conjI impI)
  assume "truthy file \<and> fs (the file) = None"
  then show "download_fastq_parallel fs out_dir sample_list methods procs file use_max
        = Inl FileNotFoundError"
    by (simp add: download_fastq_parallel_def resolve_sample_list_def read_sample_file_def
          open_read_def)
  then show "dispatched (download_fastq_parallel fs out_dir sample_list methods procs file use_max)
          = []"
    by simp
next
  assume "get_GEO GEO_id = Inl e"
  then show "download_GEO_dataset get_GEO sra fs GEO_id out_dir methods procs use_max = ([], Inl e)"
    by (simp add: download_GEO_dataset_def get_GEO_info_def)
next
  assume a: "get_GEO GEO_id = Inr g \<and> map fst (gsms g) = ks @ k # rest
        \<and> (\<forall>k' \<in> set ks. \<exists>srr. gsm_to_srr sra k' = Inr srr) \<and> gsm_to_srr sra k = Inl e"
  then have "comprehension (gsm_to_srr sra) (map fst (gsms g)) = (ks @ [k], Inl e)"
    by (simp add: comprehension_first_failure)
  with a show r: "download_GEO_dataset get_GEO sra fs GEO_id out_dir methods procs use_max
          = (ks @ [k], Inl e)"
    by (simp add: download_GEO_dataset_def get_GEO_info_def)
  show "dispatched
            (snd (download_GEO_dataset get_GEO sra fs GEO_id out_dir methods procs use_max)) = []"
    by (simp add: r)
qed

theorem resolution_failure_aborts_witness:
  "truthy (Some ''missing.txt'') \<and> no_files (the (Some ''missing.txt'')) = None
   \<and> download_fastq_parallel no_files None (Some [''SRR9'']) ''ena-ftp'' 10
        (Some ''missing.txt'') False = Inl FileNotFoundError
   \<and> geo_three_samples ''GSE2'' = Inl (ServiceError ''no such series'')
   \<and> download_GEO_dataset geo_three_samples sra_all_runs no_files ''GSE2'' None ''ena-ftp'' 10
        False = ([], Inl (ServiceError ''no such series''))
   \<and> geo_three_samples ''GSE1'' = Inr three_samples
   \<and> map fst (gsms three_samples) = [''GSM1''] @ ''GSM2'' # [''GSM3'']
   \<and> gsm_to_srr sra_second_missing ''GSM1'' = Inr ''SRR1''
   \<and> gsm_to_srr sra_second_missing ''GSM2'' = Inl KeyError
   \<and> download_GEO_dataset geo_three_samples sra_second_missing no_files ''GSE1'' None ''ena-ftp''
        10 False = ([''GSM1''] @ [''GSM2''], Inl KeyError)"
proof -
  have a: "truthy (Some ''missing.txt'') \<and> no_files (the (Some ''missing.txt'')) = None"
    by (simp add: no_files_def)
  have b: "geo_three_samples ''GSE2'' = Inl (ServiceError ''no such series'')"
    by (simp add: geo_three_samples_def)
  have c: "geo_three_samples ''GSE1'' = Inr three_samples"
    by (simp add: geo_three_samples_def)
  have d: "map fst (gsms three_samples) = [''GSM1''] @ ''GSM2'' # [''GSM3'']"
    by (simp add: three_samples_def)
  have e: "gsm_to_srr sra_second_missing ''GSM1'' = Inr ''SRR1''"
    by (simp add: gsm_to_srr_def sra_second_missing_def sra_all_runs_def no_rows_def at0_def)
  have f: "gsm_to_srr sra_second_missing ''GSM2'' = Inl KeyError"
    by (simp add: gsm_to_srr_def sra_second_missing_def sra_all_runs_def no_rows_def at0_def)
  show ?thesis
    using a b c d e f
      resolution_failure_aborts [of "Some ''missing.txt''" no_files None "Some [''SRR9'']"
        "''ena-ftp''" 10 False geo_three_samples "''GSE2''" "ServiceError ''no such series''"
        sra_all_runs]
      resolution_failure_aborts [of None no_files None None "''ena-ftp''" 10 False
        geo_three_samples "''GSE1''" KeyError sra_second_missing three_samples "[''GSM1'']"
        "''GSM2''" "[''GSM3'']"]
    by simp
qed

section \<open>Dataset expansion translates the sample keys in order\<close>

text \<open>
  C5, as the code has it. For every dataset handle returned by the metadata lookup,
  the translation is called on an initial segment of the handle's sample keys, in
  mapping order. When every sample key translates, it is called on all of them, once
  each, the dispatch takes place, and the batch has as many identifiers as the handle
  has sample keys, identifier \<open>i\<close> being the translation of key \<open>i\<close>. When the
  translation of a key raises, after the keys before it have translated, that key is
  the last one the translation is called on.
\<close>

theorem expansion_translates_keys:
  assumes "get_GEO_info get_GEO GEO_id = Inr g"
  shows "prefix (fst (download_GEO_dataset get_GEO sra fs GEO_id out_dir methods procs use_max))
           (map fst (gsms g))
       \<and> ((\<forall>k \<in> set (map fst (gsms g)). \<exists>srr. gsm_to_srr sra k = Inr srr) \<longrightarrow>
            fst (download_GEO_dataset get_GEO sra fs GEO_id out_dir methods procs use_max)
              = map fst (gsms g)
            \<and> (\<exists>pc. snd (download_GEO_dataset get_GEO sra fs GEO_id out_dir methods procs use_max)
                      = Inr pc)
            \<and> length (dispatched
                  (snd (download_GEO_dataset get_GEO sra fs GEO_id out_dir methods procs use_max)))
                = length (gsms g)
            \<and> map Inr (map job_sample_id (dispatched
                  (snd (download_GEO_dataset get_GEO sra fs GEO_id out_dir methods procs use_max))))
                = map (gsm_to_srr sra) (map fst (gsms g)))
       \<and> (\<forall>ks k rest e.
            map fst (gsms g) = ks @ k # rest
            \<and> (\<forall>k' \<in> set ks. \<exists>srr. gsm_to_srr sra k' = Inr srr) \<and> gsm_to_srr sra k = Inl e \<longrightarrow>
            fst (download_GEO_dataset get_GEO sra fs GEO_id out_dir methods procs use_max)
              = ks @ [k])"
proof (intro conjI impI allI)
  have "fst (download_GEO_dataset get_GEO sra fs GEO_id out_dir methods procs use_max)
          = fst (comprehension (gsm_to_srr sra) (map fst (gsms g)))"
    using assms by (simp add: download_GEO_dataset_def split: prod.splits sum.splits)
  then show "prefix (fst (download_GEO_dataset get_GEO sra fs GEO_id out_dir methods procs use_max))
           (map fst (gsms g))"
    by (simp add: comprehension_calls_prefix)
next
  assume ok: "\<forall>k \<in> set (map fst (gsms g)). \<exists>srr. gsm_to_srr sra k = Inr srr"
  from comprehension_all_ok [OF ok] obtain ids where
    c: "comprehension (gsm_to_srr sra) (map fst (gsms g)) = (map fst (gsms g), Inr ids)"
    and m: "map (gsm_to_srr sra) (map fst (gsms g)) = map Inr ids"
    by blast
  from m have len: "length ids = length (gsms g)"
    by (metis length_map)
  have d: "download_GEO_dataset get_GEO sra fs GEO_id out_dir methods procs use_max
          = (map fst (gsms g),
             Inr \<lparr> n_jobs = (if use_max then int (length ids) else procs),
                   tasks = map (\<lambda>sample_id.
                          \<lparr> job_out_dir = out_dir, job_sample_id = sample_id,
                            job_download_methods = methods \<rparr>) ids \<rparr>)"
    using assms c
    by (simp add: download_GEO_dataset_def download_fastq_parallel_def resolve_sample_list_def)
  show "fst (download_GEO_dataset get_GEO sra fs GEO_id out_dir methods procs use_max)
              = map fst (gsms g)"
    by (simp add: d)
  show "\<exists>pc. snd (download_GEO_dataset get_GEO sra fs GEO_id out_dir methods procs use_max)
                      = Inr pc"
    by (simp add: d)
  show "length (dispatched
                  (snd (download_GEO_dataset get_GEO sra fs GEO_id out_dir methods procs use_max)))
                = length (gsms g)"
    by (simp add: d len)
  show "map Inr (map job_sample_id (dispatched
                  (snd (download_GEO_dataset get_GEO sra fs GEO_id out_dir methods procs use_max))))
                = map (gsm_to_srr sra) (map fst (gsms g))"
    using m by (simp add: d comp_def)
next
  fix ks k rest e
  assume a: "map fst (gsms g) = ks @ k # rest
            \<and> (\<forall>k' \<in> set ks. \<exists>srr. gsm_to_srr sra k' = Inr srr) \<and> gsm_to_srr sra k = Inl e"
  then have "comprehension (gsm_to_srr sra) (map fst (gsms g)) = (ks @ [k], Inl e)"
    by (simp add: comprehension_first_failure)
  with assms
  show "fst (download_GEO_dataset get_GEO sra fs GEO_id out_dir methods procs use_max) = ks @ [k]"
    by (simp add: download_GEO_dataset_def)
qed

theorem expansion_translates_keys_witness:
  "get_GEO_info geo_three_samples ''GSE1'' = Inr three_samples
   \<and> fst (download_GEO_dataset geo_three_samples sra_all_runs no_files ''GSE1'' None ''ena-ftp'' 10
           False) = [''GSM1'', ''GSM2'', ''GSM3'']
   \<and> length (dispatched
         (snd (download_GEO_dataset geo_three_samples sra_all_runs no_files ''GSE1'' None
                 ''ena-ftp'' 10 False))) = 3"
proof -
  have a: "get_GEO_info geo_three_samples ''GSE1'' = Inr three_samples"
    by (simp add: get_GEO_info_def geo_three_samples_def)
  have b: "\<forall>k \<in> set (map fst (gsms three_samples)). \<exists>srr. gsm_to_srr sra_all_runs k = Inr srr"
    by (simp add: three_samples_def gsm_to_srr_def sra_all_runs_def at0_def)
  show ?thesis
    using a b
      expansion_translates_keys [OF a, of sra_all_runs no_files None "''ena-ftp''" 10 False]
    by (simp add: three_samples_def)
qed

text \<open>
  C5 as stated fails when a translation raises: the dataset below has the sample keys
  \<open>GSM1\<close>, \<open>GSM2\<close> and \<open>GSM3\<close>, the table for \<open>GSM2\<close> has no rows, and
  \<open>GSM3\<close> is never translated; there is no batch.
\<close>

theorem expansion_every_key_counterexample:
  "get_GEO_info geo_three_samples ''GSE1'' = Inr three_samples
   \<and> map fst (gsms three_samples) = [''GSM1'', ''GSM2'', ''GSM3'']
   \<and> download_GEO_dataset geo_three_samples sra_second_missing no_files ''GSE1'' None
        ''ena-ftp'' 10 False = ([''GSM1'', ''GSM2''], Inl KeyError)"
  by (simp add: get_GEO_info_def geo_three_samples_def three_samples_def download_GEO_dataset_def
        gsm_to_srr_def sra_second_missing_def sra_all_runs_def no_rows_def at0_def)

section \<open>The use-max option on the command line\<close>

text \<open>
  C9, as the code has it. On a command line that parses, the flag is true exactly when
  the option is given a non-empty string, the string \<open>False\<close> included; it is false
  when the option is absent and when it is given the empty string.
\<close>

theorem use_max_flag_parsed:
  assumes "parse_args int_of_str cl = Inr a"
  shows "use_max_processes a = (\<exists>s. opt_use_max_processes cl = Some s \<and> s \<noteq> [])"
  using assms
  by (auto simp: parse_args_def bool_of_str_def split: option.splits sum.splits)

theorem use_max_flag_parsed_witness:
  "map_sum id use_max_processes (parse_args no_int false_flag_line) = Inr True
   \<and> opt_use_max_processes false_flag_line = Some ''False''"
proof -
  have h: "parse_args no_int false_flag_line
             = Inr \<lparr> input_file = Some ''ids.txt'', output_dir = None,
                     download_methods = ''ena-ascp ena-ftp aws-http prefetch'',
                     processes = 10, use_max_processes = True \<rparr>"
    by (simp add: parse_args_def false_flag_line_def bool_of_str_def)
  show ?thesis
    using h use_max_flag_parsed [OF h]
    by (simp add: false_flag_line_def)
qed

text \<open>
  C9 as stated fails: the option given with the empty string, as in \<open>-M ""\<close>, is not
  omitted, and the flag is false.
\<close>

theorem use_max_flag_counterexample:
  "opt_use_max_processes empty_flag_line = Some []
   \<and> map_sum id use_max_processes (parse_args no_int empty_flag_line) = Inr False"
  by (simp add: parse_args_def empty_flag_line_def bool_of_str_def)

section \<open>File-based resolution\<close>

lemma lines_from_concat: "concat (lines_from acc s) = rev acc @ s"
  by (induction s arbitrary: acc) auto

lemma readlines_concat: "concat (readlines text) = text"
  by (simp add: readlines_def lines_from_concat)

lemma lstrip_decompose: "s = takeWhile isspace s @ lstrip s"
  by (simp add: lstrip_def)

lemma rstrip_decompose: "s = rstrip s @ rev (takeWhile isspace (rev s))"
proof -
  have "rstrip s @ rev (takeWhile isspace (rev s))
          = rev (takeWhile isspace (rev s) @ dropWhile isspace (rev s))"
    unfolding rstrip_def rev_append ..
  then show ?thesis by simp
qed

lemma strip_decompose:
  "\<exists>pre suf. s = pre @ strip s @ suf \<and> (\<forall>c \<in> set pre. isspace c) \<and> (\<forall>c \<in> set suf. isspace c)"
proof -
  let ?pre = "takeWhile isspace s"
  let ?suf = "rev (takeWhile isspace (rev (lstrip s)))"
  have "lstrip s = strip s @ ?suf"
    unfolding strip_def by (rule rstrip_decompose)
  then have "s = ?pre @ strip s @ ?suf"
    using lstrip_decompose [of s] by simp
  moreover have "\<forall>c \<in> set ?pre. isspace c"
    by (auto dest: set_takeWhileD)
  moreover have "\<forall>c \<in> set ?suf. isspace c"
    by (auto dest: set_takeWhileD)
  ultimately show ?thesis by blast
qed

lemma strip_blank:
  assumes "\<forall>c \<in> set s. isspace c"
  shows "strip s = []"
  using assms by (auto simp: strip_def lstrip_def rstrip_def dest: set_dropWhileD)

lemma strip_ends:
  assumes "strip s \<noteq> []"
  shows "\<not> isspace (hd (strip s)) \<and> \<not> isspace (last (strip s))"
proof -
  let ?t = "dropWhile isspace s"
  let ?u = "dropWhile isspace (rev ?t)"
  have s: "strip s = rev ?u"
    by (simp add: strip_def lstrip_def rstrip_def)
  with assms have u: "?u \<noteq> []" by simp
  then have t: "?t \<noteq> []" by (cases ?t) simp_all
  have "last (strip s) = hd ?u"
    using u by (simp add: s last_rev)
  moreover have "\<not> isspace (hd ?u)"
    using u by (rule hd_dropWhile)
  moreover have "hd (strip s) = last ?u"
    using u by (simp add: s hd_rev)
  moreover have "last ?u = last (rev ?t)"
    using u by (metis takeWhile_dropWhile_id last_appendR)
  moreover have "last (rev ?t) = hd ?t"
    using t by (simp add: last_rev)
  moreover have "\<not> isspace (hd ?t)"
    using t by (rule hd_dropWhile)
  ultimately show ?thesis by simp
qed

text \<open>
  C2, as the code has it. For a file of \<open>N\<close> lines, the resolution yields \<open>N\<close>
  identifiers in file order, identifier \<open>i\<close> being line \<open>i\<close> with the whitespace at
  both of its ends removed: the line is the identifier between two runs of whitespace,
  and an identifier that is not empty neither starts nor ends with whitespace. A blank
  line yields the empty identifier; no line is filtered out.
\<close>

theorem file_resolution_strips_lines:
  assumes "path \<noteq> []" and "fs path = Some text"
  shows "\<exists>ids. resolve_sample_list fs (Some path) sample_list = Inr (Some ids)
           \<and> length ids = length (readlines text)
           \<and> (\<forall>i < length ids.
                ids ! i = strip (readlines text ! i)
                \<and> (\<exists>pre suf. readlines text ! i = pre @ ids ! i @ suf
                      \<and> (\<forall>c \<in> set pre. isspace c) \<and> (\<forall>c \<in> set suf. isspace c))
                \<and> (ids ! i \<noteq> [] \<longrightarrow> \<not> isspace (hd (ids ! i)) \<and> \<not> isspace (last (ids ! i)))
                \<and> ((\<forall>c \<in> set (readlines text ! i). isspace c) \<longrightarrow> ids ! i = []))"
proof -
  let ?ids = "map strip (readlines text)"
  have r: "resolve_sample_list fs (Some path) sample_list = Inr (Some ?ids)"
    using assms by (simp add: resolve_sample_list_def read_sample_file_def open_read_def)
  have "\<forall>i < length ?ids.
          ?ids ! i = strip (readlines text ! i)
          \<and> (\<exists>pre suf. readlines text ! i = pre @ ?ids ! i @ suf
                \<and> (\<forall>c \<in> set pre. isspace c) \<and> (\<forall>c \<in> set suf. isspace c))
          \<and> (?ids ! i \<noteq> [] \<longrightarrow> \<not> isspace (hd (?ids ! i)) \<and> \<not> isspace (last (?ids ! i)))
          \<and> ((\<forall>c \<in> set (readlines text ! i). isspace c) \<longrightarrow> ?ids ! i = [])"
    using strip_decompose strip_ends strip_blank by simp
  with r show ?thesis by (intro exI [of _ ?ids]) simp
qed

theorem file_resolution_strips_lines_witness:
  "''ids.txt'' \<noteq> [] \<and> two_line_files ''ids.txt'' = Some two_line_text
   \<and> readlines two_line_text = [''SRR001'' @ [CHR 0x0A], [CHR 0x0A], ''SRR002'']
   \<and> resolve_sample_list two_line_files (Some ''ids.txt'') None
       = Inr (Some [''SRR001'', [], ''SRR002''])"
proof -
  have p: "''ids.txt'' \<noteq> []" by simp
  have f: "two_line_files ''ids.txt'' = Some two_line_text"
    by (simp add: two_line_files_def)
  have l: "readlines two_line_text = [''SRR001'' @ [CHR 0x0A], [CHR 0x0A], ''SRR002'']"
    by code_simp
  have s: "map strip [''SRR001'' @ [CHR 0x0A], [CHR 0x0A], ''SRR002''] = [''SRR001'', [], ''SRR002'']"
    by code_simp
  from file_resolution_strips_lines [of "''ids.txt''" two_line_files two_line_text None, OF p f]
  obtain ids where
    r: "resolve_sample_list two_line_files (Some ''ids.txt'') None = Inr (Some ids)"
    and n: "length ids = length (readlines two_line_text)"
    and e: "\<forall>i < length ids. ids ! i = strip (readlines two_line_text ! i)"
    by blast
  from n e have "ids = map strip (readlines two_line_text)"
    by (simp add: list_eq_iff_nth_eq)
  then have "ids = [''SRR001'', [], ''SRR002'']"
    unfolding l s .
  with r have "resolve_sample_list two_line_files (Some ''ids.txt'') None
                 = Inr (Some [''SRR001'', [], ''SRR002''])"
    by simp
  with p f l show ?thesis by blast
qed

text \<open>
  C2 as stated fails on a line that starts with whitespace: the file below holds the one
  line \<open>" SRR001\n"\<close>; the identifier is \<open>SRR001\<close>, and the line with its trailing
  whitespace removed is \<open>" SRR001"\<close>.
\<close>

theorem file_resolution_trailing_counterexample:
  "indented_files ''ids.txt'' = Some indented_text
   \<and> readlines indented_text = ['' SRR001'' @ [CHR 0x0A]]
   \<and> resolve_sample_list indented_files (Some ''ids.txt'') None = Inr (Some [''SRR001''])
   \<and> map rstrip (readlines indented_text) = ['' SRR001'']"
proof -
  have f: "indented_files ''ids.txt'' = Some indented_text"
    by (simp add: indented_files_def)
  have l: "readlines indented_text = ['' SRR001'' @ [CHR 0x0A]]"
    by code_simp
  have s: "map strip (readlines indented_text) = [''SRR001'']"
    by code_simp
  have t: "map rstrip (readlines indented_text) = ['' SRR001'']"
    by code_simp
  have "resolve_sample_list indented_files (Some ''ids.txt'') None = Inr (Some [''SRR001''])"
    using f s by (simp add: resolve_sample_list_def read_sample_file_def open_read_def)
  with f l t show ?thesis by simp
qed

section \<open>Key-value strings into a dictionary\<close>

lemma fold_update_map_of:
  "fold (\<lambda>(key, val) d. d(key \<mapsto> val)) pairs m = m ++ map_of (rev pairs)"
proof (induction pairs arbitrary: m)
  case Nil
  then show ?case by simp
next
  case (Cons p pairs)
  obtain k v where p: "p = (k, v)" by (cases p)
  have "(\<lambda>a. if a = k then Some v else m a) = m(k \<mapsto> v)"
    by (rule ext) simp
  with Cons p show ?case by simp
qed

lemma unpack2_Inr_iff: "unpack2 ps = Inr (k, v) \<longleftrightarrow> ps = [k, v]"
  by (cases ps rule: unpack2.cases) auto

lemma unpack2_Inl:
  assumes "unpack2 ps = Inl e"
  shows "e = ValueError NotEnoughValues \<or> e = ValueError TooManyValues"
  using assms by (cases ps rule: unpack2.cases) auto

lemma collect_Nil: "collect f [] = Inr []"
  by (simp add: collect_def)

lemma collect_Cons:
  "collect f (x # xs) =
     (case f x of
        Inl e \<Rightarrow> Inl e
      | Inr y \<Rightarrow> (case collect f xs of Inl e \<Rightarrow> Inl e | Inr ys \<Rightarrow> Inr (y # ys)))"
  by (simp add: collect_def split: sum.split prod.split)


lemma collect_Inr_iff: "collect f xs = Inr ys \<longleftrightarrow> map f xs = map Inr ys"
proof (induction xs arbitrary: ys)
  case Nil
  then show ?case by (auto simp: collect_Nil)
next
  case (Cons x xs)
  show ?case
  proof (cases ys)
    case Nil
    then show ?thesis by (simp add: collect_Cons split: sum.split)
  next
    case c: (Cons y zs)
    show ?thesis
      unfolding c using Cons.IH [of zs]
      by (cases "f x"; cases "collect f xs") (auto simp: collect_Cons)
  qed
qed

lemma collect_Inl_source:
  assumes "collect f xs = Inl e"
  shows "\<exists>x \<in> set xs. f x = Inl e"
  using assms
proof (induction xs)
  case Nil
  then show ?case by (simp add: collect_Nil)
next
  case (Cons x xs)
  show ?case
  proof (cases "f x")
    case (Inl e')
    with Cons.prems show ?thesis by (simp add: collect_Cons)
  next
    case (Inr y)
    with Cons.prems have "collect f xs = Inl e"
      by (cases "collect f xs") (simp_all add: collect_Cons)
    with Cons.IH show ?thesis by simp
  qed
qed


lemma list_to_dict_unfold:
  "list_to_dict list sep =
     (case collect (split sep) list of
        Inl e \<Rightarrow> Inl e
      | Inr parts \<Rightarrow>
          (case collect unpack2 parts of
             Inl e \<Rightarrow> Inl e
           | Inr pairs \<Rightarrow> Inr (map_of (rev pairs))))"
  unfolding list_to_dict_def fold_update_map_of by (simp split: sum.split)

lemma unpack2_all_pairs:
  assumes "map unpack2 parts = map Inr pairs"
  shows "parts = map (\<lambda>(k, v). [k, v]) pairs"
  using assms
proof (induction parts arbitrary: pairs)
  case Nil
  then show ?case by simp
next
  case (Cons ps parts)
  then obtain p rest where pr: "pairs = p # rest" by (cases pairs) auto
  obtain k v where kv: "p = (k, v)" by (cases p)
  from Cons.prems pr kv have u: "unpack2 ps = Inr (k, v)" and r: "map unpack2 parts = map Inr rest"
    by simp_all
  from u have "ps = [k, v]" by (simp add: unpack2_Inr_iff)
  moreover from r have "parts = map (\<lambda>(k, v). [k, v]) rest" by (rule Cons.IH)
  ultimately show ?case using pr kv by simp
qed

text \<open>A successful \<open>list_to_dict\<close>: every string splits into a pair, and the pairs fill the dictionary.\<close>

lemma list_to_dict_Inr:
  assumes "list_to_dict list sep = Inr d"
  obtains pairs where "map (split sep) list = map (\<lambda>(k, v). Inr [k, v]) pairs"
    and "d = map_of (rev pairs)"
proof (cases "collect (split sep) list")
  case (Inl e)
  with assms show ?thesis by (simp add: list_to_dict_unfold)
next
  case a: (Inr parts)
  show ?thesis
  proof (cases "collect unpack2 parts")
    case (Inl e)
    with assms a show ?thesis by (simp add: list_to_dict_unfold)
  next
    case b: (Inr pairs)
    from assms a b have d: "d = map_of (rev pairs)"
      by (simp add: list_to_dict_unfold)
    from b have "map unpack2 parts = map Inr pairs" by (simp add: collect_Inr_iff)
    then have "parts = map (\<lambda>(k, v). [k, v]) pairs" by (rule unpack2_all_pairs)
    moreover from a have "map (split sep) list = map Inr parts" by (simp add: collect_Inr_iff)
    ultimately have "map (split sep) list = map (\<lambda>(k, v). Inr [k, v]) pairs"
      by (simp add: comp_def case_prod_unfold)
    then show ?thesis using d by (rule that)
  qed
qed

lemma list_to_dict_Inl:
  assumes "list_to_dict list sep = Inl e"
  shows "\<exists>s \<in> set list. (\<forall>k v. split sep s \<noteq> Inr [k, v])
           \<and> (sep \<noteq> [] \<longrightarrow> e = ValueError NotEnoughValues \<or> e = ValueError TooManyValues)"
proof (cases "collect (split sep) list")
  case (Inl e')
  then obtain s where s: "s \<in> set list" "split sep s = Inl e'"
    using collect_Inl_source by blast
  from s(2) have "sep = []" by (simp add: split_def split: if_splits)
  moreover from s(2) have "\<forall>k v. split sep s \<noteq> Inr [k, v]" by simp
  ultimately show ?thesis using s(1) by blast
next
  case (Inr parts)
  with assms have "collect unpack2 parts = Inl e"
    by (cases "collect unpack2 parts") (simp_all add: list_to_dict_unfold)
  then obtain ps where ps: "ps \<in> set parts" "unpack2 ps = Inl e"
    using collect_Inl_source by blast
  from Inr have "map (split sep) list = map Inr parts" by (simp add: collect_Inr_iff)
  then have "set (map (split sep) list) = set (map Inr parts)" by simp
  with ps(1) have "Inr ps \<in> set (map (split sep) list)" by simp
  then obtain s where s: "s \<in> set list" "split sep s = Inr ps" by auto
  from ps(2) have "\<forall>k v. ps \<noteq> [k, v]" by auto
  with s have "\<forall>k v. split sep s \<noteq> Inr [k, v]" by simp
  with s(1) unpack2_Inl [OF ps(2)] show ?thesis by blast
qed


lemma list_to_dict_all_split:
  assumes "list_to_dict list sep = Inr d" and "s \<in> set list"
  shows "\<exists>k v. split sep s = Inr [k, v]"
proof -
  from assms(1) obtain pairs where
    m: "map (split sep) list = map (\<lambda>(k, v). Inr [k, v]) pairs"
    by (rule list_to_dict_Inr)
  from assms(2) have "split sep s \<in> set (map (split sep) list)" by simp
  with m have "split sep s \<in> set (map (\<lambda>(k, v). Inr [k, v]) pairs)" by simp
  then show ?thesis by auto
qed

lemma list_to_dict_absent:
  assumes "list_to_dict list sep = Inr d"
    and "\<forall>s \<in> set list. \<forall>v. split sep s \<noteq> Inr [key, v]"
  shows "d key = None"
proof -
  from assms(1) obtain pairs where
    m: "map (split sep) list = map (\<lambda>(k, v). Inr [k, v]) pairs"
    and d: "d = map_of (rev pairs)"
    by (rule list_to_dict_Inr)
  have "key \<notin> fst ` set pairs"
  proof
    assume "key \<in> fst ` set pairs"
    then obtain v where "(key, v) \<in> set pairs" by auto
    then have "Inr [key, v] \<in> set (map (\<lambda>(k, v). Inr [k, v]) pairs)" by force
    with m have "Inr [key, v] \<in> set (map (split sep) list)" by simp
    then obtain s where "s \<in> set list" "split sep s = Inr [key, v]" by auto
    with assms(2) show False by blast
  qed
  then have "map_of (rev pairs) key = None"
    by (simp add: map_of_eq_None_iff)
  with d show ?thesis by simp
qed

lemma map_of_rev_last_wins:
  assumes "key \<notin> fst ` set pa"
  shows "map_of (rev (pb @ (key, val) # pa)) key = Some val"
proof -
  from assms have "map_of (rev pa) key = None"
    by (simp add: map_of_eq_None_iff)
  then show ?thesis by (simp add: map_add_def)
qed

lemma list_to_dict_last_wins:
  assumes "list_to_dict list sep = Inr d"
    and "list = before @ s # after"
    and "split sep s = Inr [key, val]"
    and "\<forall>t \<in> set after. \<forall>v. split sep t \<noteq> Inr [key, v]"
  shows "d key = Some val"
proof -
  let ?g = "\<lambda>(k, v). Inr [k, v] :: error + string list"
  from assms(1) obtain pairs where
    m: "map (split sep) list = map ?g pairs"
    and d: "d = map_of (rev pairs)"
    by (rule list_to_dict_Inr)
  define n where "n = length before"
  from m have "length (map (split sep) list) = length (map ?g pairs)"
    by simp
  then have len: "length pairs = length list" by simp
  with assms(2) have n: "n < length pairs" by (simp add: n_def)
  define pb where "pb = take n pairs"
  define pa where "pa = drop (Suc n) pairs"
  from n have pairs: "pairs = pb @ pairs ! n # pa"
    by (simp add: pb_def pa_def id_take_nth_drop)
  from m have "map (split sep) list ! n = map ?g pairs ! n"
    by simp
  with n len have "split sep (list ! n) = ?g (pairs ! n)"
    by simp
  moreover from assms(2) have "list ! n = s" by (simp add: n_def)
  ultimately have "split sep s = ?g (pairs ! n)"
    by simp
  with assms(3) have pn: "pairs ! n = (key, val)"
    by (cases "pairs ! n") simp
  from m have "drop (Suc n) (map (split sep) list) = drop (Suc n) (map ?g pairs)"
    by simp
  with assms(2) have after: "map (split sep) after = map ?g pa"
    by (simp add: n_def pa_def drop_map)
  have "key \<notin> fst ` set pa"
  proof
    assume "key \<in> fst ` set pa"
    then obtain v where "(key, v) \<in> set pa" by auto
    then have "?g (key, v) \<in> ?g ` set pa"
      by (rule imageI)
    then have "Inr [key, v] \<in> set (map ?g pa)" by simp
    with after have "Inr [key, v] \<in> set (map (split sep) after)" by simp
    then obtain t where "t \<in> set after" "split sep t = Inr [key, v]" by auto
    with assms(4) show False by blast
  qed
  then have "map_of (rev (pb @ (key, val) # pa)) key = Some val"
    by (rule map_of_rev_last_wins)
  with pairs pn d show ?thesis by simp
qed

text \<open>
  C10. \<open>list_to_dict\<close> raises if and only if some string of the list does not split
  on the separator into exactly two parts; with a non-empty separator the exception is
  the one of the unpacking (not enough, or too many, values). When it returns, a key is
  bound to the value of the last string that carries it, whatever earlier strings carry
  the same key, and a key that no string carries is unbound.
\<close>

theorem list_to_dict_errors_and_duplicates:
  "((\<exists>e. list_to_dict list sep = Inl e)
      \<longleftrightarrow> (\<exists>s \<in> set list. \<forall>key val. split sep s \<noteq> Inr [key, val]))
   \<and> (\<forall>e. list_to_dict list sep = Inl e \<and> sep \<noteq> [] \<longrightarrow>
          e = ValueError NotEnoughValues \<or> e = ValueError TooManyValues)
   \<and> (\<forall>d before s after key val.
          list_to_dict list sep = Inr d \<and> list = before @ s # after
          \<and> split sep s = Inr [key, val]
          \<and> (\<forall>t \<in> set after. \<forall>v. split sep t \<noteq> Inr [key, v]) \<longrightarrow>
          d key = Some val)
   \<and> (\<forall>d key.
          list_to_dict list sep = Inr d
          \<and> (\<forall>s \<in> set list. \<forall>v. split sep s \<noteq> Inr [key, v]) \<longrightarrow>
          d key = None)"
proof (intro conjI allI impI iffI)
  assume "\<exists>e. list_to_dict list sep = Inl e"
  then obtain e where "list_to_dict list sep = Inl e" ..
  from list_to_dict_Inl [OF this]
  show "\<exists>s \<in> set list. \<forall>key val. split sep s \<noteq> Inr [key, val]"
    by (elim bexE conjE) (rule bexI)
next
  assume a: "\<exists>s \<in> set list. \<forall>key val. split sep s \<noteq> Inr [key, val]"
  then obtain s where s: "s \<in> set list" "\<forall>key val. split sep s \<noteq> Inr [key, val]" ..
  show "\<exists>e. list_to_dict list sep = Inl e"
  proof (cases "list_to_dict list sep")
    case (Inl e)
    then show ?thesis ..
  next
    case (Inr d)
    from list_to_dict_all_split [OF Inr s(1)] s(2) show ?thesis by simp
  qed
next
  fix e
  assume a: "list_to_dict list sep = Inl e \<and> sep \<noteq> []"
  then have "list_to_dict list sep = Inl e" and n: "sep \<noteq> []" by simp_all
  from list_to_dict_Inl [OF this(1)] n
  show "e = ValueError NotEnoughValues \<or> e = ValueError TooManyValues"
    by (elim bexE conjE) simp
next
  fix d before s after key val
  assume a: "list_to_dict list sep = Inr d \<and> list = before @ s # after
          \<and> split sep s = Inr [key, val]
          \<and> (\<forall>t \<in> set after. \<forall>v. split sep t \<noteq> Inr [key, v])"
  from a have a1: "list_to_dict list sep = Inr d" ..
  from a have a2: "list = before @ s # after" by (elim conjE)
  from a have a3: "split sep s = Inr [key, val]" by (elim conjE)
  from a have a4: "\<forall>t \<in> set after. \<forall>v. split sep t \<noteq> Inr [key, v]" by (elim conjE)
  from a1 a2 a3 a4 show "d key = Some val" by (rule list_to_dict_last_wins)
next
  fix d key
  assume a: "list_to_dict list sep = Inr d
          \<and> (\<forall>s \<in> set list. \<forall>v. split sep s \<noteq> Inr [key, v])"
  from a have a1: "list_to_dict list sep = Inr d" ..
  from a have a2: "\<forall>s \<in> set list. \<forall>v. split sep s \<noteq> Inr [key, v]" ..
  from a1 a2 show "d key = None" by (rule list_to_dict_absent)
qed

theorem list_to_dict_errors_and_duplicates_witness:
  "split '':'' ''a:3'' = Inr [''a'', ''3'']
   \<and> (\<exists>d. list_to_dict [''a:1'', ''b:2'', ''a:3''] '':'' = Inr d
            \<and> d ''a'' = Some ''3'' \<and> d ''c'' = None)
   \<and> split '':'' ''b'' = Inr [''b'']
   \<and> (\<exists>e. list_to_dict [''a:1'', ''b''] '':'' = Inl e)"
proof -
  have s1: "split '':'' ''a:1'' = Inr [''a'', ''1'']" by code_simp
  have s2: "split '':'' ''b:2'' = Inr [''b'', ''2'']" by code_simp
  have s3: "split '':'' ''a:3'' = Inr [''a'', ''3'']" by code_simp
  have s4: "split '':'' ''b'' = Inr [''b'']" by code_simp
  note ok = list_to_dict_errors_and_duplicates [of "[''a:1'', ''b:2'', ''a:3'']" "'':''"]
  note bad = list_to_dict_errors_and_duplicates [of "[''a:1'', ''b'']" "'':''"]
  from ok s1 s2 s3 have "\<not> (\<exists>e. list_to_dict [''a:1'', ''b:2'', ''a:3''] '':'' = Inl e)"
    by simp
  then obtain d where d: "list_to_dict [''a:1'', ''b:2'', ''a:3''] '':'' = Inr d"
    by (cases "list_to_dict [''a:1'', ''b:2'', ''a:3''] '':''") auto
  from ok have last:
    "\<forall>d before s after key val.
        list_to_dict [''a:1'', ''b:2'', ''a:3''] '':'' = Inr d
        \<and> [''a:1'', ''b:2'', ''a:3''] = before @ s # after
        \<and> split '':'' s = Inr [key, val]
        \<and> (\<forall>t \<in> set after. \<forall>v. split '':'' t \<noteq> Inr [key, v]) \<longrightarrow>
        d key = Some val"
    by (elim conjE)
  from ok have none:
    "\<forall>d key.
        list_to_dict [''a:1'', ''b:2'', ''a:3''] '':'' = Inr d
        \<and> (\<forall>s \<in> set [''a:1'', ''b:2'', ''a:3'']. \<forall>v. split '':'' s \<noteq> Inr [key, v]) \<longrightarrow>
        d key = None"
    by (elim conjE)
  from last [rule_format, of d "[''a:1'', ''b:2'']" "''a:3''" "[]" "''a''" "''3''"] d s3
  have a: "d ''a'' = Some ''3''" by simp
  from none [rule_format, of d "''c''"] d s1 s2 s3
  have c: "d ''c'' = None" by simp
  from bad s4 have e: "\<exists>e. list_to_dict [''a:1'', ''b''] '':'' = Inl e"
    by simp
  from s3 d a c s4 e show ?thesis by blast
qed

end
